theory Spec2Isabelle
  imports Complex_Main
begin

section \<open>32-bit integers of the CUDA kernels\<close>

text \<open>
  The kernels of the tutorial compute their indices in C \<open>int\<close> (32 bits, signed) and in
  \<open>unsigned int\<close> (the components of \<open>blockIdx\<close> and \<open>threadIdx\<close>). Values are
  mathematical integers here and the reduction to 32 bits is written out after every
  operation: \<open>u32\<close> for an unsigned result, \<open>s32\<close> for a signed one (two's complement,
  as the GPU computes it).
\<close>

definition u32 :: "int \<Rightarrow> int" where
  "u32 v = v mod 2 ^ 32"

definition s32 :: "int \<Rightarrow> int" where
  "s32 v = (v + 2 ^ 31) mod 2 ^ 32 - 2 ^ 31"

section \<open>Tunable parameters and launch geometry\<close>

text \<open>
  The tunable parameters are inserted in the kernel source as preprocessor constants;
  \<open>block_size_x\<close> and \<open>block_size_y\<close> are also the dimensions of a thread block.
\<close>

record config =
  block_size_x :: int
  block_size_y :: int
  work_per_thread_x :: int

text \<open>
  A thread is identified by \<open>blockIdx\<close> and \<open>threadIdx\<close>, each an \<open>(x, y)\<close> pair.
  A launch with a grid of \<open>gx\<close> by \<open>gy\<close> blocks runs one thread for every
  \<open>blockIdx\<close> in \<open>[0, gx) \<times> [0, gy)\<close> and every \<open>threadIdx\<close> in
  \<open>[0, block_size_x) \<times> [0, block_size_y)\<close>.
\<close>

type_synonym dim2 = "int \<times> int"
type_synonym thread = "dim2 \<times> dim2"

definition threads :: "int \<Rightarrow> int \<Rightarrow> config \<Rightarrow> thread list" where
  "threads gx gy p =
     List.product (List.product [0..gx - 1] [0..gy - 1])
       (List.product [0..block_size_x p - 1] [0..block_size_y p - 1])"

section \<open>The kernels\<close>

text \<open>
  The arrays \<open>a\<close> and \<open>b\<close> are only read and \<open>c\<close> is only written, and the tuning
  script passes three separate arrays, so a thread is modelled by the list of its writes
  to \<open>c\<close>, in program order: pairs of the index (as the pointer arithmetic sees it, a
  signed offset from \<open>c\<close>) and the value stored. A thread that never returns has no
  such list: the result of a thread is an option, \<open>None\<close> for a thread that runs
  forever. Single-precision addition is the parameter \<open>fadd\<close>.

  \<open>c[k] = a[k] + b[k]\<close>:
\<close>

definition store_sum :: "('v \<Rightarrow> 'v \<Rightarrow> 'v) \<Rightarrow> (int \<Rightarrow> 'v) \<Rightarrow> (int \<Rightarrow> 'v) \<Rightarrow> int \<Rightarrow> int \<times> 'v" where
  "store_sum fadd a b k = (k, fadd (a k) (b k))"

text \<open>
  \<^verbatim>\<open>
  __global__ void vector_add(float *c, float *a, float *b, int n, int m) {
      int i = blockIdx.x * block_size_x + threadIdx.x;
      int j = blockIdx.y * block_size_y + threadIdx.y;
      if ((i<n) && (j<m)) {
          c[j*n+i] = a[j*n+i] + b[j*n+i];
      }
  }
  \<close>
  (kernel2d.cu)
\<close>

definition kernel2d ::
  "('v \<Rightarrow> 'v \<Rightarrow> 'v) \<Rightarrow> config \<Rightarrow> (int \<Rightarrow> 'v) \<Rightarrow> (int \<Rightarrow> 'v) \<Rightarrow> int \<Rightarrow> int \<Rightarrow> thread \<Rightarrow>
     (int \<times> 'v) list option" where
  "kernel2d fadd p a b n m t =
     (case t of (blockIdx, threadIdx) \<Rightarrow>
        let i = s32 (u32 (u32 (fst blockIdx * block_size_x p) + fst threadIdx));
            j = s32 (u32 (u32 (snd blockIdx * block_size_y p) + snd threadIdx))
        in if i < n \<and> j < m then Some [store_sum fadd a b (s32 (s32 (j * n) + i))]
           else Some [])"

text \<open>
  \<^verbatim>\<open>
  __global__ void vector_add(float *c, float *a, float *b, int n, int m) {
      int i = blockIdx.x * block_size_x*work_per_thread_x + threadIdx.x;
      int j = blockIdx.y * block_size_y + threadIdx.y;
      for (int ti=0; ti<work_per_thread_x; ti++) {
          if (((i+ti*block_size_x)<n) && (j<m)) {
              c[j*n+(i+ti*block_size_x)] = a[j*n+(i+ti*block_size_x)] + b[j*n+(i+ti*block_size_x)];
          }
      }
  }
  \<close>
  (kernel2dw.cu) The loop, from the iteration \<open>ti\<close> on, with the writes \<open>ws\<close> made so
  far. The counter \<open>ti\<close> is an \<open>int\<close>: \<open>ti++\<close> is reduced to 32 bits as every other
  operation is. The constant \<open>work_per_thread_x\<close> is an \<open>int\<close> when it is below \<open>2^31\<close>
  and a wider integer otherwise; the comparison with \<open>ti\<close> is exact in both cases. For
  \<open>work_per_thread_x \<ge> 2^31\<close> the test never fails and the loop does not end, so it is
  defined as a partial function.
\<close>

partial_function (option) kernel2dw_loop ::
  "('v \<Rightarrow> 'v \<Rightarrow> 'v) \<Rightarrow> config \<Rightarrow> (int \<Rightarrow> 'v) \<Rightarrow> (int \<Rightarrow> 'v) \<Rightarrow> int \<Rightarrow> int \<Rightarrow> int \<Rightarrow> int \<Rightarrow>
     int \<Rightarrow> (int \<times> 'v) list \<Rightarrow> (int \<times> 'v) list option" where
  "kernel2dw_loop fadd p a b n m i j ti ws =
     (if ti < work_per_thread_x p then
        kernel2dw_loop fadd p a b n m i j (s32 (ti + 1))
          (ws @
           (if s32 (i + s32 (ti * block_size_x p)) < n \<and> j < m
            then [store_sum fadd a b (s32 (s32 (j * n) + s32 (i + s32 (ti * block_size_x p))))]
            else []))
      else Some ws)"

definition kernel2dw ::
  "('v \<Rightarrow> 'v \<Rightarrow> 'v) \<Rightarrow> config \<Rightarrow> (int \<Rightarrow> 'v) \<Rightarrow> (int \<Rightarrow> 'v) \<Rightarrow> int \<Rightarrow> int \<Rightarrow> thread \<Rightarrow>
     (int \<times> 'v) list option" where
  "kernel2dw fadd p a b n m t =
     (case t of (blockIdx, threadIdx) \<Rightarrow>
        let i = s32 (u32 (u32 (u32 (fst blockIdx * block_size_x p) * work_per_thread_x p)
                     + fst threadIdx));
            j = s32 (u32 (u32 (snd blockIdx * block_size_y p) + snd threadIdx))
        in kernel2dw_loop fadd p a b n m i j 0 [])"

section \<open>Launching a kernel\<close>

text \<open>
  The writes of a whole launch, thread after thread; a launch with a thread that does
  not return does not return either. The order of the threads is one of many the device
  may choose; where no index is written twice the final array does not depend on it
  (\<open>store_writes_perm\<close> below).
\<close>

fun launch :: "(thread \<Rightarrow> (int \<times> 'v) list option) \<Rightarrow> thread list \<Rightarrow> (int \<times> 'v) list option" where
  "launch kern [] = Some []"
| "launch kern (t # ts) =
     (case kern t of
        None \<Rightarrow> None
      | Some ws \<Rightarrow> map_option ((@) ws) (launch kern ts))"

text \<open>The effect of a list of writes on the array \<open>c\<close>, and how often an index is written.\<close>

definition store_writes :: "(int \<times> 'v) list \<Rightarrow> (int \<Rightarrow> 'v) \<Rightarrow> (int \<Rightarrow> 'v)" where
  "store_writes ws c = fold (\<lambda>(k, v) c'. c'(k := v)) ws c"

definition count_writes :: "(int \<times> 'v) list \<Rightarrow> int \<Rightarrow> nat" where
  "count_writes ws k = length (filter (\<lambda>w. fst w = k) ws)"

text \<open>The array after a launch, and the number of writes of a launch to an index.\<close>

definition run :: "(thread \<Rightarrow> (int \<times> 'v) list option) \<Rightarrow> thread list \<Rightarrow> (int \<Rightarrow> 'v) \<Rightarrow> (int \<Rightarrow> 'v) option" where
  "run kern ts c = map_option (\<lambda>ws. store_writes ws c) (launch kern ts)"

definition launch_count :: "(thread \<Rightarrow> (int \<times> 'v) list option) \<Rightarrow> thread list \<Rightarrow> int \<Rightarrow> nat option" where
  "launch_count kern ts k = map_option (\<lambda>ws. count_writes ws k) (launch kern ts)"

section \<open>Index arithmetic without overflow\<close>

text \<open>
  The column and the row a thread addresses in iteration \<open>ti\<close> of the loop, as
  mathematical integers, and the conditions under which the 32-bit computation of the
  kernels yields exactly these: the grid covers the \<open>n\<close> by \<open>m\<close> problem, and the
  largest column, row and flat index fit in an \<open>int\<close>.
\<close>

definition thread_col :: "config \<Rightarrow> thread \<Rightarrow> int \<Rightarrow> int" where
  "thread_col p t ti =
     fst (fst t) * block_size_x p * work_per_thread_x p + fst (snd t) + ti * block_size_x p"

definition thread_row :: "config \<Rightarrow> thread \<Rightarrow> int" where
  "thread_row p t = snd (fst t) * block_size_y p + snd (snd t)"

definition geometry_ok :: "config \<Rightarrow> int \<Rightarrow> int \<Rightarrow> int \<Rightarrow> int \<Rightarrow> bool" where
  "geometry_ok p gx gy n m \<longleftrightarrow>
     1 \<le> n \<and> 1 \<le> m \<and> 1 \<le> block_size_x p \<and> 1 \<le> block_size_y p \<and> 1 \<le> work_per_thread_x p \<and>
     n \<le> gx * block_size_x p * work_per_thread_x p \<and> m \<le> gy * block_size_y p \<and>
     gx * block_size_x p * work_per_thread_x p \<le> 2 ^ 31 \<and> gy * block_size_y p \<le> 2 ^ 31 \<and>
     n * m \<le> 2 ^ 31 \<and> work_per_thread_x p < 2 ^ 31"

text \<open>
  The writes of a thread of the work-per-thread kernel whose loop ends after
  \<open>work_per_thread_x\<close> iterations, and the writes of all threads of a list.
\<close>

definition kernel2dw_writes ::
  "('v \<Rightarrow> 'v \<Rightarrow> 'v) \<Rightarrow> config \<Rightarrow> (int \<Rightarrow> 'v) \<Rightarrow> (int \<Rightarrow> 'v) \<Rightarrow> int \<Rightarrow> int \<Rightarrow> thread \<Rightarrow> (int \<times> 'v) list" where
  "kernel2dw_writes fadd p a b n m t =
     (case t of (blockIdx, threadIdx) \<Rightarrow>
        let i = s32 (u32 (u32 (u32 (fst blockIdx * block_size_x p) * work_per_thread_x p)
                     + fst threadIdx));
            j = s32 (u32 (u32 (snd blockIdx * block_size_y p) + snd threadIdx))
        in concat (map (\<lambda>ti. if s32 (i + s32 (ti * block_size_x p)) < n \<and> j < m
                     then [store_sum fadd a b
                             (s32 (s32 (j * n) + s32 (i + s32 (ti * block_size_x p))))]
                     else [])
             [0..work_per_thread_x p - 1]))"

definition all_writes :: "(thread \<Rightarrow> (int \<times> 'v) list) \<Rightarrow> thread list \<Rightarrow> (int \<times> 'v) list" where
  "all_writes f ts = concat (map f ts)"

section \<open>Launch grid from a grid divisor list\<close>

text \<open>
  Modelled from the spec: the computation of the number of thread blocks from the
  problem size and a grid divisor list is part of the tuning library that the notebook
  calls (\<open>tune_kernel\<close> with \<open>grid_div_x\<close>); the repository holds the calls only. The
  spec's words: a grid divisor list is a ``per-dimension ordered list of parameter names
  whose product divides the problem size (ceiling division) to compute the launch grid
  size in that dimension''; the notebook says of the same division that its result ``is
  ceiled to the nearest integer''. A configuration maps parameter names to values, in
  insertion order; the product of a list that names an unknown parameter is undefined.
\<close>

type_synonym configuration = "(string \<times> int) list"

fun divisor_product :: "configuration \<Rightarrow> string list \<Rightarrow> int option" where
  "divisor_product cfg [] = Some 1"
| "divisor_product cfg (name # names) =
     (case map_of cfg name of
        None \<Rightarrow> None
      | Some v \<Rightarrow> map_option ((*) v) (divisor_product cfg names))"

definition grid_blocks :: "int \<Rightarrow> configuration \<Rightarrow> string list \<Rightarrow> int option" where
  "grid_blocks P cfg names =
     (case divisor_product cfg names of
        None \<Rightarrow> None
      | Some D \<Rightarrow> Some ((P + D - 1) div D))"

section \<open>Properties of the kernels\<close>

subsection \<open>Values in range are not changed by the reduction to 32 bits\<close>

lemma s32_id: "- (2 ^ 31) \<le> v \<Longrightarrow> v < 2 ^ 31 \<Longrightarrow> s32 v = v"
  by (simp add: s32_def)

lemma u32_id: "0 \<le> v \<Longrightarrow> v < 2 ^ 32 \<Longrightarrow> u32 v = v"
  by (simp add: u32_def)

subsection \<open>The loop ends when \<open>work_per_thread_x\<close> is an \<open>int\<close>\<close>

lemma kernel2dw_loop_returns:
  assumes "work_per_thread_x p < 2 ^ 31" and "0 \<le> ti" and "ti \<le> work_per_thread_x p"
  shows "kernel2dw_loop fadd p a b n m i j ti ws =
     Some (ws @ concat (map (\<lambda>t. if s32 (i + s32 (t * block_size_x p)) < n \<and> j < m
                      then [store_sum fadd a b (s32 (s32 (j * n) + s32 (i + s32 (t * block_size_x p))))]
                      else [])
               [ti..work_per_thread_x p - 1]))"
  using assms
proof (induction "nat (work_per_thread_x p - ti)" arbitrary: ti ws)
  case 0
  then have "\<not> ti < work_per_thread_x p" by simp
  then show ?case
    by (subst kernel2dw_loop.simps) simp
next
  case (Suc k)
  then have lt: "ti < work_per_thread_x p" and k: "k = nat (work_per_thread_x p - (ti + 1))"
    by simp_all
  have inc: "s32 (ti + 1) = ti + 1"
    using Suc.prems lt by (intro s32_id) simp_all
  have up: "[ti..work_per_thread_x p - 1] = ti # [ti + 1..work_per_thread_x p - 1]"
    using lt by (simp add: upto_rec1)
  have "0 \<le> ti + 1" "ti + 1 \<le> work_per_thread_x p"
    using Suc.prems lt by simp_all
  note IH = Suc.hyps(1) [OF k Suc.prems(1) this]
  show ?case
    by (subst kernel2dw_loop.simps) (simp add: lt inc up IH)
qed

lemma kernel2dw_returns:
  assumes "0 \<le> work_per_thread_x p" and "work_per_thread_x p < 2 ^ 31"
  shows "kernel2dw fadd p a b n m t = Some (kernel2dw_writes fadd p a b n m t)"
  using assms
  by (simp add: kernel2dw_def kernel2dw_writes_def case_prod_unfold Let_def
      kernel2dw_loop_returns)

lemma launch_Some:
  "(\<And>t. t \<in> set ts \<Longrightarrow> kern t = Some (f t)) \<Longrightarrow> launch kern ts = Some (all_writes f ts)"
  by (induction ts) (simp_all add: all_writes_def)

subsection \<open>Lists and mixed-radix indices\<close>

lemma concat_map_if_singleton:
  "concat (map (\<lambda>x. if P x then [f x] else []) xs) = map f (filter P xs)"
  by (induction xs) auto

lemma distinct_concat_map:
  assumes "distinct xs"
    and "\<And>x. x \<in> set xs \<Longrightarrow> distinct (f x)"
    and "\<And>x y. x \<in> set xs \<Longrightarrow> y \<in> set xs \<Longrightarrow> x \<noteq> y \<Longrightarrow> set (f x) \<inter> set (f y) = {}"
  shows "distinct (concat (map f xs))"
  using assms by (induction xs) fastforce+

lemma radix_unique:
  fixes q r q' r' d :: int
  assumes "0 \<le> r" "r < d" "0 \<le> r'" "r' < d" "q * d + r = q' * d + r'"
  shows "q = q' \<and> r = r'"
proof -
  have "(q * d + r) div d = q" "(q' * d + r') div d = q'"
    using assms(1-4) by simp_all
  with assms(5) have "q = q'" by metis
  with assms(5) show ?thesis by simp
qed

subsection \<open>Bounds on what a thread of the grid computes\<close>

lemma in_threads:
  "((bX, bY), (tX, tY)) \<in> set (threads gx gy p) \<longleftrightarrow>
     0 \<le> bX \<and> bX < gx \<and> 0 \<le> bY \<and> bY < gy \<and>
     0 \<le> tX \<and> tX < block_size_x p \<and> 0 \<le> tY \<and> tY < block_size_y p"
  by (auto simp: threads_def)

lemma distinct_threads: "distinct (threads gx gy p)"
  by (simp add: threads_def distinct_product)

lemma scaled_index_bounds:
  fixes q g d r :: int
  assumes "0 \<le> q" "q < g" "0 \<le> r" "r < d"
  shows "0 \<le> q * d" "0 \<le> q * d + r" "q * d + r < g * d" "q * d + d \<le> g * d"
proof -
  have d: "0 < d" using assms by simp
  have "q + 1 \<le> g" using assms by simp
  then have "(q + 1) * d \<le> g * d" using d by (intro mult_right_mono) simp_all
  then show "q * d + d \<le> g * d" by (simp add: algebra_simps)
  then show "q * d + r < g * d" using assms by simp
  show "0 \<le> q * d" using assms d by simp
  then show "0 \<le> q * d + r" using assms by simp
qed

lemma col_bounds:
  assumes ok: "geometry_ok p gx gy n m"
    and t: "t \<in> set (threads gx gy p)"
    and ti: "0 \<le> ti" "ti < work_per_thread_x p"
  shows "0 \<le> fst (fst t) * block_size_x p"
    and "fst (fst t) * block_size_x p \<le> fst (fst t) * block_size_x p * work_per_thread_x p"
    and "0 \<le> fst (snd t)"
    and "0 \<le> ti * block_size_x p"
    and "ti * block_size_x p < 2 ^ 31"
    and "fst (fst t) * block_size_x p * work_per_thread_x p + fst (snd t) < 2 ^ 31"
    and "0 \<le> thread_col p t ti"
    and "thread_col p t ti < gx * block_size_x p * work_per_thread_x p"
proof -
  obtain bX bY tX tY where t_eq: "t = ((bX, bY), (tX, tY))"
    by (metis surj_pair)
  define bx w where "bx = block_size_x p" and "w = work_per_thread_x p"
  have r: "0 \<le> bX" "bX < gx" "0 \<le> tX" "tX < bx"
    using t by (simp_all add: t_eq in_threads bx_def)
  have pos: "1 \<le> bx" "1 \<le> w" and top: "gx * bx * w \<le> 2 ^ 31"
    using ok by (simp_all add: geometry_ok_def bx_def w_def)
  have inner: "0 \<le> ti * bx + tX" "ti * bx + tX < w * bx" "0 \<le> ti * bx"
    using scaled_index_bounds [of ti w tX bx] ti r by (simp_all add: w_def)
  have e: "bX * (w * bx) = bX * bx * w" "gx * (w * bx) = gx * bx * w"
    by simp_all
  have outer: "0 \<le> bX * bx * w" "bX * bx * w + (ti * bx + tX) < gx * bx * w"
    using scaled_index_bounds [of bX gx "ti * bx + tX" "w * bx"] r inner
    unfolding e by simp_all
  have bXbx: "0 \<le> bX * bx" using r pos by simp
  then have "bX * bx * 1 \<le> bX * bx * w" using pos by (intro mult_left_mono) simp_all
  then have low: "bX * bx \<le> bX * bx * w" by simp
  have c: "thread_col p t ti = bX * bx * w + (ti * bx + tX)"
    by (simp add: thread_col_def t_eq bx_def w_def)
  have all: "0 \<le> bX * bx" "bX * bx \<le> bX * bx * w" "0 \<le> tX" "0 \<le> ti * bx"
    "ti * bx < 2 ^ 31" "bX * bx * w + tX < 2 ^ 31" "0 \<le> thread_col p t ti" "thread_col p t ti < gx * bx * w"
    using bXbx low r inner outer top c by linarith+
  show "0 \<le> fst (fst t) * block_size_x p"
    and "fst (fst t) * block_size_x p \<le> fst (fst t) * block_size_x p * work_per_thread_x p"
    and "0 \<le> fst (snd t)"
    and "0 \<le> ti * block_size_x p"
    and "ti * block_size_x p < 2 ^ 31"
    and "fst (fst t) * block_size_x p * work_per_thread_x p + fst (snd t) < 2 ^ 31"
    and "0 \<le> thread_col p t ti"
    and "thread_col p t ti < gx * block_size_x p * work_per_thread_x p"
    using all unfolding t_eq bx_def w_def by simp_all
qed

lemma row_bounds:
  assumes ok: "geometry_ok p gx gy n m"
    and t: "t \<in> set (threads gx gy p)"
  shows "0 \<le> snd (fst t) * block_size_y p" and "0 \<le> snd (snd t)"
    and "0 \<le> thread_row p t" and "thread_row p t < gy * block_size_y p"
proof -
  obtain bX bY tX tY where t_eq: "t = ((bX, bY), (tX, tY))"
    by (metis surj_pair)
  have r: "0 \<le> bY" "bY < gy" "0 \<le> tY" "tY < block_size_y p"
    using t by (simp_all add: t_eq in_threads)
  show "0 \<le> snd (fst t) * block_size_y p" and "0 \<le> snd (snd t)"
    and "0 \<le> thread_row p t" and "thread_row p t < gy * block_size_y p"
    using scaled_index_bounds [of bY gy tY "block_size_y p"] r
    by (simp_all add: thread_row_def t_eq)
qed

lemma flat_index_bounds:
  fixes r c n m :: int
  assumes "0 \<le> r" "r < m" "0 \<le> c" "c < n"
  shows "0 \<le> r * n" "r * n < n * m" "0 \<le> r * n + c" "r * n + c < n * m"
  using scaled_index_bounds [of r m c n] assms by (simp_all add: mult.commute)

subsection \<open>The writes of one thread, without the reductions\<close>

lemma concat_map_cong:
  "(\<And>x. x \<in> set xs \<Longrightarrow> f x = g x) \<Longrightarrow> concat (map f xs) = concat (map g xs)"
  by (induction xs) simp_all

lemma kernel2dw_exact:
  assumes ok: "geometry_ok p gx gy n m"
    and t: "t \<in> set (threads gx gy p)"
  shows "kernel2dw_writes fadd p a b n m t =
           map (\<lambda>ti. store_sum fadd a b (thread_row p t * n + thread_col p t ti))
             (filter (\<lambda>ti. thread_col p t ti < n \<and> thread_row p t < m) [0..work_per_thread_x p - 1])"
proof -
  define i where "i = fst (fst t) * block_size_x p * work_per_thread_x p + fst (snd t)"
  have w: "0 < work_per_thread_x p" "0 \<le> (0::int)"
    using ok by (simp_all add: geometry_ok_def)
  note cb = col_bounds [OF ok t w(2) w(1)]
  note rb = row_bounds [OF ok t]
  have i_eq: "s32 (u32 (u32 (u32 (fst (fst t) * block_size_x p) * work_per_thread_x p)
                 + fst (snd t))) = i"
  proof -
    have "u32 (fst (fst t) * block_size_x p) = fst (fst t) * block_size_x p"
      using cb by (intro u32_id) simp_all
    moreover have "u32 (fst (fst t) * block_size_x p * work_per_thread_x p)
        = fst (fst t) * block_size_x p * work_per_thread_x p"
      using cb by (intro u32_id) simp_all
    moreover have "u32 i = i" using cb unfolding i_def by (intro u32_id) simp_all
    moreover have "s32 i = i" using cb unfolding i_def by (intro s32_id) simp_all
    ultimately show ?thesis by (simp add: i_def)
  qed
  have j_eq: "s32 (u32 (u32 (snd (fst t) * block_size_y p) + snd (snd t))) = thread_row p t"
  proof -
    have top: "gy * block_size_y p \<le> 2 ^ 31" using ok by (simp add: geometry_ok_def)
    have "u32 (snd (fst t) * block_size_y p) = snd (fst t) * block_size_y p"
      using rb top unfolding thread_row_def by (intro u32_id) simp_all
    moreover have "u32 (thread_row p t) = thread_row p t" using rb top by (intro u32_id) simp_all
    moreover have "s32 (thread_row p t) = thread_row p t" using rb top by (intro s32_id) simp_all
    ultimately show ?thesis by (simp add: thread_row_def)
  qed
  have body: "(if s32 (i + s32 (ti * block_size_x p)) < n \<and> thread_row p t < m
               then [store_sum fadd a b
                       (s32 (s32 (thread_row p t * n) + s32 (i + s32 (ti * block_size_x p))))]
               else [])
            = (if thread_col p t ti < n \<and> thread_row p t < m
               then [store_sum fadd a b (thread_row p t * n + thread_col p t ti)] else [])"
    if "ti \<in> set [0..work_per_thread_x p - 1]" for ti
  proof -
    have ti: "0 \<le> ti" "ti < work_per_thread_x p" using that by simp_all
    note cbt = col_bounds [OF ok t ti]
    have top: "gx * block_size_x p * work_per_thread_x p \<le> 2 ^ 31"
      using ok by (simp add: geometry_ok_def)
    have c: "thread_col p t ti = i + ti * block_size_x p" by (simp add: thread_col_def i_def)
    have s1: "s32 (ti * block_size_x p) = ti * block_size_x p"
      using cbt by (intro s32_id) simp_all
    have s2: "s32 (thread_col p t ti) = thread_col p t ti"
      using cbt top by (intro s32_id) simp_all
    have s3: "s32 (s32 (thread_row p t * n) + thread_col p t ti) = thread_row p t * n + thread_col p t ti"
      if g: "thread_col p t ti < n" "thread_row p t < m"
    proof -
      have nm: "n * m \<le> 2 ^ 31" using ok by (simp add: geometry_ok_def)
      note fb = flat_index_bounds [OF rb(3) g(2) cbt(7) g(1)]
      have "s32 (thread_row p t * n) = thread_row p t * n" using fb nm by (intro s32_id) simp_all
      moreover have "s32 (thread_row p t * n + thread_col p t ti) = thread_row p t * n + thread_col p t ti"
        using fb nm by (intro s32_id) simp_all
      ultimately show ?thesis by simp
    qed
    show ?thesis using s1 s2 s3 by (simp add: c [symmetric])
  qed
  have "kernel2dw_writes fadd p a b n m t =
      concat (map (\<lambda>ti. if s32 (i + s32 (ti * block_size_x p)) < n \<and> thread_row p t < m
               then [store_sum fadd a b
                       (s32 (s32 (thread_row p t * n) + s32 (i + s32 (ti * block_size_x p))))]
               else []) [0..work_per_thread_x p - 1])"
    by (simp add: kernel2dw_writes_def case_prod_unfold Let_def i_eq j_eq
        cong: if_cong)
  also have "\<dots> = concat (map (\<lambda>ti. if thread_col p t ti < n \<and> thread_row p t < m
               then [store_sum fadd a b (thread_row p t * n + thread_col p t ti)] else [])
             [0..work_per_thread_x p - 1])"
    by (rule concat_map_cong) (rule body)
  also have "\<dots> = map (\<lambda>ti. store_sum fadd a b (thread_row p t * n + thread_col p t ti))
             (filter (\<lambda>ti. thread_col p t ti < n \<and> thread_row p t < m) [0..work_per_thread_x p - 1])"
    by (rule concat_map_if_singleton)
  finally show ?thesis .
qed

subsection \<open>No index is written twice, and every index of the problem is written\<close>

lemma flat_index_unique:
  assumes ok: "geometry_ok p gx gy n m"
    and t: "t \<in> set (threads gx gy p)" and t': "t' \<in> set (threads gx gy p)"
    and ti: "0 \<le> ti" "ti < work_per_thread_x p"
    and ti': "0 \<le> ti'" "ti' < work_per_thread_x p"
    and g: "thread_col p t ti < n" "thread_col p t' ti' < n"
    and eq: "thread_row p t * n + thread_col p t ti = thread_row p t' * n + thread_col p t' ti'"
  shows "t = t' \<and> ti = ti'"
proof -
  obtain bX bY tX tY where t_eq: "t = ((bX, bY), (tX, tY))"
    by (metis surj_pair)
  obtain bX' bY' tX' tY' where t'_eq: "t' = ((bX', bY'), (tX', tY'))"
    by (metis surj_pair)
  define bx w where "bx = block_size_x p" and "w = work_per_thread_x p"
  have r: "0 \<le> tX" "tX < bx" "0 \<le> tY" "tY < block_size_y p"
    using t by (simp_all add: t_eq in_threads bx_def)
  have r': "0 \<le> tX'" "tX' < bx" "0 \<le> tY'" "tY' < block_size_y p"
    using t' by (simp_all add: t'_eq in_threads bx_def)
  have "thread_row p t = thread_row p t' \<and> thread_col p t ti = thread_col p t' ti'"
    using col_bounds(7) [OF ok t ti] col_bounds(7) [OF ok t' ti'] g eq
    by (intro radix_unique [of _ n]) simp_all
  then have rc: "thread_row p t = thread_row p t'" "thread_col p t ti = thread_col p t' ti'"
    by simp_all
  have rows: "bY * block_size_y p + tY = bY' * block_size_y p + tY'"
    using rc(1) by (simp add: thread_row_def t_eq t'_eq)
  have "thread_col p t ti = (bX * w + ti) * bx + tX" "thread_col p t' ti' = (bX' * w + ti') * bx + tX'"
    by (simp_all add: thread_col_def t_eq t'_eq bx_def w_def algebra_simps)
  then have cols: "(bX * w + ti) * bx + tX = (bX' * w + ti') * bx + tX'"
    using rc(2) by simp
  have "bY = bY' \<and> tY = tY'"
    using r r' rows by (intro radix_unique [of _ "block_size_y p"]) simp_all
  moreover have x: "bX * w + ti = bX' * w + ti' \<and> tX = tX'"
    using r r' cols by (intro radix_unique [of _ bx]) simp_all
  moreover have "bX = bX' \<and> ti = ti'"
    using ti ti' x by (intro radix_unique [of _ w]) (simp_all add: w_def)
  ultimately show ?thesis by (simp add: t_eq t'_eq)
qed

lemma kernel2dw_indices:
  assumes ok: "geometry_ok p gx gy n m" and t: "t \<in> set (threads gx gy p)"
  shows "map fst (kernel2dw_writes fadd p a b n m t) =
           map (\<lambda>ti. thread_row p t * n + thread_col p t ti)
             (filter (\<lambda>ti. thread_col p t ti < n \<and> thread_row p t < m) [0..work_per_thread_x p - 1])"
  by (simp add: kernel2dw_exact [OF ok t] store_sum_def comp_def)

lemma launch_kernel2dw_distinct:
  assumes ok: "geometry_ok p gx gy n m"
  shows "distinct (map fst (all_writes (kernel2dw_writes fadd p a b n m) (threads gx gy p)))"
proof -
  have "distinct (concat (map (\<lambda>t. map fst (kernel2dw_writes fadd p a b n m t)) (threads gx gy p)))"
  proof (rule distinct_concat_map)
    show "distinct (threads gx gy p)" by (rule distinct_threads)
  next
    fix t assume t: "t \<in> set (threads gx gy p)"
    have "inj_on (\<lambda>ti. thread_row p t * n + thread_col p t ti)
            {ti \<in> set [0..work_per_thread_x p - 1]. thread_col p t ti < n \<and> thread_row p t < m}"
    proof (rule inj_onI)
      fix ti ti'
      assume "ti \<in> {ti \<in> set [0..work_per_thread_x p - 1]. thread_col p t ti < n \<and> thread_row p t < m}"
        and "ti' \<in> {ti \<in> set [0..work_per_thread_x p - 1]. thread_col p t ti < n \<and> thread_row p t < m}"
        and eq: "thread_row p t * n + thread_col p t ti = thread_row p t * n + thread_col p t ti'"
      then have "0 \<le> ti" "ti < work_per_thread_x p" "0 \<le> ti'" "ti' < work_per_thread_x p"
        "thread_col p t ti < n" "thread_col p t ti' < n"
        by simp_all
      from flat_index_unique [OF ok t t this eq] show "ti = ti'" by simp
    qed
    then show "distinct (map fst (kernel2dw_writes fadd p a b n m t))"
      by (simp add: kernel2dw_indices [OF ok t] distinct_map)
  next
    fix t t' assume t: "t \<in> set (threads gx gy p)" and t': "t' \<in> set (threads gx gy p)"
      and ne: "t \<noteq> t'"
    show "set (map fst (kernel2dw_writes fadd p a b n m t)) \<inter> set (map fst (kernel2dw_writes fadd p a b n m t')) = {}"
    proof (rule ccontr)
      assume "set (map fst (kernel2dw_writes fadd p a b n m t)) \<inter> set (map fst (kernel2dw_writes fadd p a b n m t')) \<noteq> {}"
      then obtain k where "k \<in> set (map fst (kernel2dw_writes fadd p a b n m t))"
        and "k \<in> set (map fst (kernel2dw_writes fadd p a b n m t'))"
        by blast
      then obtain ti ti' where "0 \<le> ti" "ti < work_per_thread_x p" "0 \<le> ti'" "ti' < work_per_thread_x p"
        "thread_col p t ti < n" "thread_col p t' ti' < n"
        "thread_row p t * n + thread_col p t ti = thread_row p t' * n + thread_col p t' ti'"
        unfolding kernel2dw_indices [OF ok t] kernel2dw_indices [OF ok t'] by auto
      from flat_index_unique [OF ok t t' this] ne show False by simp
    qed
  qed
  then show ?thesis by (simp add: all_writes_def map_concat comp_def)
qed

lemma radix_split:
  fixes k g d :: int
  assumes "0 \<le> k" "k < g * d" "0 < d"
  shows "0 \<le> k div d" "k div d < g" "0 \<le> k mod d" "k mod d < d" "k div d * d + k mod d = k"
proof -
  show "0 \<le> k div d" using assms by (simp add: pos_imp_zdiv_nonneg_iff)
  show "k div d < g"
  proof (rule ccontr)
    assume "\<not> k div d < g"
    then have "g * d \<le> k div d * d" using assms by (intro mult_right_mono) simp_all
    also have "\<dots> \<le> k div d * d + k mod d"
      using pos_mod_sign [OF assms(3), of k] by linarith
    also have "\<dots> = k" by simp
    finally show False using assms by simp
  qed
  show "0 \<le> k mod d" "k mod d < d" using assms by simp_all
  show "k div d * d + k mod d = k" by simp
qed

lemma set_all_writes: "set (all_writes kern ts) = (\<Union>t \<in> set ts. set (kern t))"
  by (simp add: all_writes_def)

lemma launch_kernel2dw_index_set:
  assumes ok: "geometry_ok p gx gy n m"
  shows "fst ` set (all_writes (kernel2dw_writes fadd p a b n m) (threads gx gy p)) = {0..<n * m}"
proof (rule set_eqI, rule iffI)
  fix k
  assume "k \<in> fst ` set (all_writes (kernel2dw_writes fadd p a b n m) (threads gx gy p))"
  then obtain t wr where t: "t \<in> set (threads gx gy p)"
    and "wr \<in> set (kernel2dw_writes fadd p a b n m t)" "k = fst wr"
    unfolding set_all_writes by blast
  then have "k \<in> set (map fst (kernel2dw_writes fadd p a b n m t))"
    by simp
  then obtain ti where ti: "0 \<le> ti" "ti < work_per_thread_x p"
    and g: "thread_col p t ti < n" "thread_row p t < m" and k: "k = thread_row p t * n + thread_col p t ti"
    unfolding kernel2dw_indices [OF ok t] by auto
  from flat_index_bounds [OF row_bounds(3) [OF ok t] g(2) col_bounds(7) [OF ok t ti] g(1)]
  show "k \<in> {0..<n * m}" by (simp add: k)
next
  fix k
  assume "k \<in> {0..<n * m}"
  then have k: "0 \<le> k" "k < n * m" by simp_all
  define bx w by' where "bx = block_size_x p" and "w = work_per_thread_x p"
    and "by' = block_size_y p"
  have pos: "0 < n" "0 < bx" "0 < w" "0 < by'"
    and cover: "n \<le> gx * bx * w" "m \<le> gy * by'"
    using ok by (simp_all add: geometry_ok_def bx_def w_def by'_def)
  define r c where "r = k div n" and "c = k mod n"
  have rc: "0 \<le> r" "r < m" "0 \<le> c" "c < n" "r * n + c = k"
    using radix_split [of k m n] k pos by (simp_all add: r_def c_def mult.commute)
  define bY tY where "bY = r div by'" and "tY = r mod by'"
  have y: "0 \<le> bY" "bY < gy" "0 \<le> tY" "tY < by'" "bY * by' + tY = r"
    using radix_split [of r gy by'] rc cover pos by (simp_all add: bY_def tY_def)
  define q tX where "q = c div bx" and "tX = c mod bx"
  have "c < gx * w * bx" using rc cover by (simp add: mult.assoc mult.commute [of w bx])
  then have x1: "0 \<le> q" "q < gx * w" "0 \<le> tX" "tX < bx" "q * bx + tX = c"
    using radix_split [of c "gx * w" bx] rc pos by (simp_all add: q_def tX_def)
  define bX ti where "bX = q div w" and "ti = q mod w"
  have x2: "0 \<le> bX" "bX < gx" "0 \<le> ti" "ti < w" "bX * w + ti = q"
    using radix_split [of q gx w] x1 pos by (simp_all add: bX_def ti_def)
  define t :: thread where "t = ((bX, bY), (tX, tY))"
  have t: "t \<in> set (threads gx gy p)"
    using x1 x2 y by (simp add: t_def in_threads bx_def by'_def)
  have "thread_col p t ti = (bX * w + ti) * bx + tX"
    by (simp add: thread_col_def t_def bx_def w_def algebra_simps)
  then have col: "thread_col p t ti = c" using x1 x2 by simp
  have row: "thread_row p t = r" using y by (simp add: thread_row_def t_def by'_def)
  have "k \<in> set (map fst (kernel2dw_writes fadd p a b n m t))"
    unfolding kernel2dw_indices [OF ok t]
    using x2 rc col row by (auto simp: w_def intro!: image_eqI [where x = ti])
  then show "k \<in> fst ` set (all_writes (kernel2dw_writes fadd p a b n m) (threads gx gy p))"
    using t by (auto simp: set_all_writes)
qed

lemma launch_kernel2dw_values:
  "w \<in> set (all_writes (kernel2dw_writes fadd p a b n m) ts) \<Longrightarrow> snd w = fadd (a (fst w)) (b (fst w))"
  by (auto simp: set_all_writes kernel2dw_writes_def Let_def store_sum_def split: if_splits)

subsection \<open>The array after a launch\<close>

lemma store_writes_Cons: "store_writes (w # ws) c = store_writes ws (c(fst w := snd w))"
  by (simp add: store_writes_def case_prod_unfold)

lemma store_writes_functional:
  assumes "\<And>w. w \<in> set ws \<Longrightarrow> snd w = F (fst w)"
  shows "store_writes ws c = (\<lambda>k. if k \<in> fst ` set ws then F k else c k)"
  using assms
proof (induction ws arbitrary: c)
  case Nil
  show ?case by (simp add: store_writes_def)
next
  case (Cons w ws)
  have "store_writes (w # ws) c = store_writes ws (c(fst w := snd w))"
    by (rule store_writes_Cons)
  also have "\<dots> = (\<lambda>k. if k \<in> fst ` set ws then F k else (c(fst w := snd w)) k)"
    using Cons.prems by (intro Cons.IH) simp
  also have "\<dots> = (\<lambda>k. if k \<in> fst ` set (w # ws) then F k else c k)"
    using Cons.prems [of w] by (auto simp: fun_eq_iff)
  finally show ?case .
qed

lemma store_writes_map_of:
  "distinct (map fst ws) \<Longrightarrow>
     store_writes ws c = (\<lambda>k. case map_of ws k of None \<Rightarrow> c k | Some v \<Rightarrow> v)"
proof (induction ws arbitrary: c)
  case Nil
  show ?case by (simp add: store_writes_def)
next
  case (Cons w ws)
  then have "fst w \<notin> fst ` set ws" and d: "distinct (map fst ws)" by simp_all
  then have none: "map_of ws (fst w) = None" by (simp add: map_of_eq_None_iff)
  show ?case
    unfolding store_writes_Cons Cons.IH [OF d]
    using none by (cases w) (auto simp: fun_eq_iff split: option.splits)
qed

lemma store_writes_perm:
  assumes "distinct (map fst ws)" "distinct (map fst ws')" "set ws = set ws'"
  shows "store_writes ws c = store_writes ws' c"
proof -
  have "map_of ws = map_of ws'"
    using assms by (simp only: map_of_inject_set)
  then show ?thesis
    using assms by (simp add: store_writes_map_of)
qed

lemma count_writes_distinct:
  "distinct (map fst ws) \<Longrightarrow> count_writes ws k = (if k \<in> fst ` set ws then 1 else 0)"
  by (induction ws) (auto simp: count_writes_def)

subsection \<open>The plain kernel is the work-per-thread kernel with one element per thread\<close>

lemma s32_idem: "s32 (s32 v) = s32 v"
  by (simp add: s32_def)

lemma s32_0: "s32 0 = 0"
  by (simp add: s32_def)

lemma u32_idem: "u32 (u32 v) = u32 v"
  by (simp add: u32_def)

lemma kernel2d_as_kernel2dw:
  "kernel2d fadd p a b n m t =
     Some (kernel2dw_writes fadd (p\<lparr>work_per_thread_x := 1\<rparr>) a b n m t)"
  by (simp add: kernel2d_def kernel2dw_writes_def case_prod_unfold Let_def
      s32_idem u32_idem s32_0)

lemma threads_work_irrelevant: "threads gx gy (p\<lparr>work_per_thread_x := v\<rparr>) = threads gx gy p"
  by (simp add: threads_def)

subsection \<open>The grid of the claim covers the problem\<close>

lemma ceiling_grid:
  fixes n d :: int
  assumes "0 < d"
  shows "n \<le> \<lceil>real_of_int n / real_of_int d\<rceil> * d"
    and "n \<le> z * d \<Longrightarrow> \<lceil>real_of_int n / real_of_int d\<rceil> \<le> z"
proof -
  have "real_of_int n / real_of_int d \<le> of_int \<lceil>real_of_int n / real_of_int d\<rceil>"
    by (rule le_of_int_ceiling)
  moreover have "0 < real_of_int d" using assms by simp
  ultimately have "real_of_int n \<le> of_int \<lceil>real_of_int n / real_of_int d\<rceil> * real_of_int d"
    by (simp only: pos_divide_le_eq)
  then have "real_of_int n \<le> real_of_int (\<lceil>real_of_int n / real_of_int d\<rceil> * d)"
    by simp
  then show "n \<le> \<lceil>real_of_int n / real_of_int d\<rceil> * d"
    by (simp only: of_int_le_iff)
next
  assume "n \<le> z * d"
  then have "real_of_int n \<le> real_of_int (z * d)" by (simp only: of_int_le_iff)
  then have "real_of_int n \<le> real_of_int z * real_of_int d" by simp
  moreover have "0 < real_of_int d" using assms by simp
  ultimately have "real_of_int n / real_of_int d \<le> real_of_int z"
    by (simp only: pos_divide_le_eq)
  then show "\<lceil>real_of_int n / real_of_int d\<rceil> \<le> z"
    by (simp add: ceiling_le_iff)
qed

lemma launch_kernel2dw_result:
  assumes ok: "geometry_ok p gx gy n m"
  shows "store_writes (all_writes (kernel2dw_writes fadd p a b n m) (threads gx gy p)) c =
           (\<lambda>k. if 0 \<le> k \<and> k < n * m then fadd (a k) (b k) else c k)"
proof -
  have "store_writes (all_writes (kernel2dw_writes fadd p a b n m) (threads gx gy p)) c =
      (\<lambda>k. if k \<in> fst ` set (all_writes (kernel2dw_writes fadd p a b n m) (threads gx gy p))
            then fadd (a k) (b k) else c k)"
    by (rule store_writes_functional) (rule launch_kernel2dw_values)
  then show ?thesis
    by (simp add: launch_kernel2dw_index_set [OF ok])
qed

lemma count_writes_pos: "w \<in> set ws \<Longrightarrow> 0 < count_writes ws (fst w)"
  by (induction ws) (auto simp: count_writes_def)

text \<open>
  The threads of a launch run concurrently, so the device may perform the writes in
  another order than they are listed here. It leaves the same array.
\<close>

lemma launch_order_irrelevant:
  assumes ok: "geometry_ok p gx gy n m"
    and "set ws = set (all_writes (kernel2dw_writes fadd p a b n m) (threads gx gy p))"
    and "distinct (map fst ws)"
  shows "store_writes ws c = store_writes (all_writes (kernel2dw_writes fadd p a b n m) (threads gx gy p)) c"
  using assms(2,3) launch_kernel2dw_distinct [OF ok] by (intro store_writes_perm) simp_all

subsection \<open>The work-per-thread kernel against the plain 2D kernel\<close>

lemma launch_kernel2dw:
  assumes ok: "geometry_ok p gx gy n m"
  shows "launch (kernel2dw fadd p a b n m) ts = Some (all_writes (kernel2dw_writes fadd p a b n m) ts)"
proof (rule launch_Some)
  fix t
  have "0 \<le> work_per_thread_x p" "work_per_thread_x p < 2 ^ 31"
    using ok by (simp_all add: geometry_ok_def)
  then show "kernel2dw fadd p a b n m t = Some (kernel2dw_writes fadd p a b n m t)"
    by (rule kernel2dw_returns)
qed

lemma launch_kernel2d:
  "launch (kernel2d fadd p a b n m) ts =
     Some (all_writes (kernel2dw_writes fadd (p\<lparr>work_per_thread_x := 1\<rparr>) a b n m) ts)"
  by (rule launch_Some) (rule kernel2d_as_kernel2dw)

text \<open>
  Claim C10, as amended. Let \<open>n, m \<ge> 1\<close> be the \<open>int\<close> arguments of the kernels, let
  \<open>block_size_x\<close>, \<open>block_size_y\<close>, \<open>work_per_thread_x\<close> be at least 1 and let
  \<open>work_per_thread_x\<close> be an \<open>int\<close> constant (below \<open>2^31\<close>). The work-per-thread kernel
  (kernel2dw.cu) is launched on a grid of
  \<open>gx = \<lceil>n / (block_size_x * work_per_thread_x)\<rceil>\<close> by \<open>gy = \<lceil>m / block_size_y\<rceil>\<close>
  blocks, the plain kernel (kernel2d.cu) on \<open>\<lceil>n / block_size_x\<rceil>\<close> by \<open>gy\<close> blocks.
  Provided no 32-bit index computation overflows, that is \<open>n * m \<le> 2^31\<close>,
  \<open>gx * block_size_x * work_per_thread_x \<le> 2^31\<close> and \<open>gy * block_size_y \<le> 2^31\<close>:
  \<^item> the launch of the work-per-thread kernel returns and leaves in \<open>c\<close> the value
    \<open>a[k] + b[k]\<close> at every index \<open>0 \<le> k < n * m\<close> and changes nothing else;
  \<^item> the launch of the plain 2D kernel leaves the same array;
  \<^item> every index \<open>0 \<le> k < n * m\<close> is written exactly once by the work-per-thread
    kernel, and no other index is written;
  \<^item> every value written at an index \<open>k\<close> is \<open>a[k] + b[k]\<close>.
\<close>

theorem kernel2dw_refines_kernel2d:
  fixes n m gx gy gx2d :: int
  assumes sizes: "1 \<le> n" "1 \<le> m"
    and params: "1 \<le> block_size_x p" "1 \<le> block_size_y p" "1 \<le> work_per_thread_x p"
    and int_work: "work_per_thread_x p < 2 ^ 31"
    and grid_x: "gx = \<lceil>real_of_int n / real_of_int (block_size_x p * work_per_thread_x p)\<rceil>"
    and grid_y: "gy = \<lceil>real_of_int m / real_of_int (block_size_y p)\<rceil>"
    and grid_x2d: "gx2d = \<lceil>real_of_int n / real_of_int (block_size_x p)\<rceil>"
    and int_args: "n < 2 ^ 31" "m < 2 ^ 31"
    and no_overflow: "n * m \<le> 2 ^ 31"
      "gx * block_size_x p * work_per_thread_x p \<le> 2 ^ 31"
      "gy * block_size_y p \<le> 2 ^ 31"
  shows "run (kernel2dw fadd p a b n m) (threads gx gy p) c =
           Some (\<lambda>k. if 0 \<le> k \<and> k < n * m then fadd (a k) (b k) else c k)
       \<and> run (kernel2d fadd p a b n m) (threads gx2d gy p) c =
           run (kernel2dw fadd p a b n m) (threads gx gy p) c
       \<and> (\<forall>k. launch_count (kernel2dw fadd p a b n m) (threads gx gy p) k =
             Some (if 0 \<le> k \<and> k < n * m then 1 else 0))
       \<and> (\<forall>ws. launch (kernel2dw fadd p a b n m) (threads gx gy p) = Some ws \<longrightarrow>
             (\<forall>w \<in> set ws. snd w = fadd (a (fst w)) (b (fst w))))"
proof -
  define bx w where "bx = block_size_x p" and "w = work_per_thread_x p"
  have pos: "0 < bx" "0 < w" "0 < bx * w" "0 < block_size_y p"
    using params by (simp_all add: bx_def w_def)
  have cover_x: "n \<le> gx * bx * w"
    using ceiling_grid(1) [OF pos(3), of n] by (simp add: grid_x bx_def w_def mult.assoc)
  have cover_y: "m \<le> gy * block_size_y p"
    using ceiling_grid(1) [OF pos(4), of m] by (simp add: grid_y)
  have ok: "geometry_ok p gx gy n m"
    using sizes params int_work cover_x cover_y no_overflow
    by (simp add: geometry_ok_def bx_def w_def)
  have cover_x2d: "n \<le> gx2d * bx"
    using ceiling_grid(1) [OF pos(1), of n] by (simp add: grid_x2d bx_def)
  have "n \<le> (gx * w) * bx" using cover_x by (simp add: mult.assoc mult.commute [of w bx])
  then have "gx2d \<le> gx * w"
    unfolding grid_x2d bx_def by (rule ceiling_grid(2) [OF pos(1) [unfolded bx_def]])
  then have "gx2d * bx \<le> gx * w * bx" using pos by (intro mult_right_mono) simp_all
  then have top_x2d: "gx2d * bx \<le> 2 ^ 31"
    using no_overflow(2) by (simp add: bx_def w_def mult.assoc mult.commute [of "work_per_thread_x p"])
  have ok2d: "geometry_ok (p\<lparr>work_per_thread_x := 1\<rparr>) gx2d gy n m"
    using sizes params cover_x2d cover_y top_x2d no_overflow by (simp add: geometry_ok_def bx_def)
  have r: "run (kernel2dw fadd p a b n m) (threads gx gy p) c =
           Some (\<lambda>k. if 0 \<le> k \<and> k < n * m then fadd (a k) (b k) else c k)"
    by (simp add: run_def launch_kernel2dw [OF ok] launch_kernel2dw_result [OF ok])
  have "run (kernel2d fadd p a b n m) (threads gx2d gy p) c =
           Some (\<lambda>k. if 0 \<le> k \<and> k < n * m then fadd (a k) (b k) else c k)"
    using launch_kernel2dw_result [OF ok2d, of fadd a b c]
    by (simp add: run_def launch_kernel2d threads_work_irrelevant)
  moreover have "launch_count (kernel2dw fadd p a b n m) (threads gx gy p) k =
             Some (if 0 \<le> k \<and> k < n * m then 1 else 0)" for k
    by (simp add: launch_count_def launch_kernel2dw [OF ok]
        count_writes_distinct [OF launch_kernel2dw_distinct [OF ok]]
        launch_kernel2dw_index_set [OF ok])
  moreover have "\<forall>ws. launch (kernel2dw fadd p a b n m) (threads gx gy p) = Some ws \<longrightarrow>
             (\<forall>w \<in> set ws. snd w = fadd (a (fst w)) (b (fst w)))"
    by (simp add: launch_kernel2dw [OF ok] launch_kernel2dw_values)
  ultimately show ?thesis using r by simp
qed

text \<open>
  The theorem at \<open>n = 5\<close>, \<open>m = 3\<close> with 2 by 2 blocks and three elements per thread
  (a grid of 1 by 2 blocks, against 3 by 2 for the plain kernel).
\<close>

theorem kernel2dw_refines_kernel2d_witness:
  "run (kernel2dw (+) \<lparr>block_size_x = 2, block_size_y = 2, work_per_thread_x = 3\<rparr>
        (\<lambda>k. k) (\<lambda>k. 100 * k) 5 3)
     (threads 1 2 \<lparr>block_size_x = 2, block_size_y = 2, work_per_thread_x = 3\<rparr>) (\<lambda>k. 0)
     = Some (\<lambda>k. if 0 \<le> k \<and> k < 15 then k + 100 * k else 0)
   \<and> run (kernel2d (+) \<lparr>block_size_x = 2, block_size_y = 2, work_per_thread_x = 3\<rparr>
        (\<lambda>k. k) (\<lambda>k. 100 * k) 5 3)
     (threads 3 2 \<lparr>block_size_x = 2, block_size_y = 2, work_per_thread_x = 3\<rparr>) (\<lambda>k. 0)
     = run (kernel2dw (+) \<lparr>block_size_x = 2, block_size_y = 2, work_per_thread_x = 3\<rparr>
        (\<lambda>k. k) (\<lambda>k. 100 * k) 5 3)
     (threads 1 2 \<lparr>block_size_x = 2, block_size_y = 2, work_per_thread_x = 3\<rparr>) (\<lambda>k. 0)
   \<and> launch_count
     (kernel2dw (+) \<lparr>block_size_x = 2, block_size_y = 2, work_per_thread_x = 3\<rparr>
        (\<lambda>k. k) (\<lambda>k. 100 * k) 5 3)
     (threads 1 2 \<lparr>block_size_x = 2, block_size_y = 2, work_per_thread_x = 3\<rparr>) 14 = Some 1
   \<and> launch_count
     (kernel2dw (+) \<lparr>block_size_x = 2, block_size_y = 2, work_per_thread_x = 3\<rparr>
        (\<lambda>k. k) (\<lambda>k. 100 * k) 5 3)
     (threads 1 2 \<lparr>block_size_x = 2, block_size_y = 2, work_per_thread_x = 3\<rparr>) 15 = Some 0"
  using kernel2dw_refines_kernel2d
    [of 5 3 "\<lparr>block_size_x = 2, block_size_y = 2, work_per_thread_x = 3\<rparr>" 1 2 3
      "(+)" "\<lambda>k. k" "\<lambda>k. 100 * k" "\<lambda>k. 0"]
  by simp

text \<open>
  Without the bound on \<open>n * m\<close> the claim fails. For \<open>n = 65536\<close>, \<open>m = 32769\<close>,
  \<open>block_size_x = 32\<close>, \<open>block_size_y = 1\<close>, \<open>work_per_thread_x = 1\<close> the grid is 2048
  by 32769 blocks; the thread with \<open>blockIdx = (0, 32768)\<close>, \<open>threadIdx = (0, 0)\<close> has
  \<open>i = 0 < n\<close> and \<open>j = 32768 < m\<close>, and \<open>j*n = 2^31\<close> wraps to \<open>- 2^31\<close>: it stores to
  \<open>c[-2147483648]\<close>, outside \<open>[0, n * m)\<close>. The launch returns, and the number of its
  writes to that index is not 0.
\<close>

theorem kernel2dw_index_overflow:
  "\<lceil>65536 / (32 * 1) :: real\<rceil> = 2048 \<and> \<lceil>32769 / 1 :: real\<rceil> = 32769
   \<and> kernel2dw (+) \<lparr>block_size_x = 32, block_size_y = 1, work_per_thread_x = 1\<rparr>
         (\<lambda>k. 0) (\<lambda>k. 0 :: int) 65536 32769 ((0, 32768), (0, 0)) = Some [(- 2147483648, 0)]
   \<and> map_option ((<) 0)
       (launch_count
         (kernel2dw (+) \<lparr>block_size_x = 32, block_size_y = 1, work_per_thread_x = 1\<rparr>
           (\<lambda>k. 0) (\<lambda>k. 0 :: int) 65536 32769)
         (threads 2048 32769 \<lparr>block_size_x = 32, block_size_y = 1, work_per_thread_x = 1\<rparr>)
         (- 2147483648))
     = Some True"
proof -
  let ?p = "\<lparr>block_size_x = 32, block_size_y = 1, work_per_thread_x = 1\<rparr>"
  let ?ts = "threads 2048 32769 ?p"
  have t: "((0, 32768), (0, 0)) \<in> set ?ts"
    by (simp add: in_threads)
  have ret: "kernel2dw (+) ?p (\<lambda>k. 0) (\<lambda>k. 0 :: int) 65536 32769 t =
      Some (kernel2dw_writes (+) ?p (\<lambda>k. 0) (\<lambda>k. 0 :: int) 65536 32769 t)" for t
    by (rule kernel2dw_returns) simp_all
  have wr: "kernel2dw_writes (+) ?p (\<lambda>k. 0) (\<lambda>k. 0 :: int) 65536 32769 ((0, 32768), (0, 0))
      = [(- 2147483648, 0)]"
    by code_simp
  have l: "launch (kernel2dw (+) ?p (\<lambda>k. 0) (\<lambda>k. 0 :: int) 65536 32769) ?ts =
      Some (all_writes (kernel2dw_writes (+) ?p (\<lambda>k. 0) (\<lambda>k. 0 :: int) 65536 32769) ?ts)"
    by (rule launch_Some) (rule ret)
  have "(- 2147483648, 0) \<in> set (all_writes (kernel2dw_writes (+) ?p (\<lambda>k. 0) (\<lambda>k. 0 :: int) 65536 32769) ?ts)"
    unfolding set_all_writes using t wr by force
  from count_writes_pos [OF this] show ?thesis
    by (simp add: launch_count_def l ret wr)
qed

subsection \<open>The other bounds\<close>

text \<open>
  The bounds on the extent of the grid are needed as well. With \<open>n = 2^31 - 1\<close>, \<open>m = 1\<close>,
  1024 threads per block and three elements per thread the grid has 699051 blocks, and in
  its last block \<open>i + ti*block_size_x\<close> exceeds \<open>2^31 - 1\<close> in the third iteration: the
  wrapped value is negative, passes the test against \<open>n\<close> and is stored to.
\<close>

lemma kernel2dw_column_overflow:
  "\<lceil>2147483647 / (1024 * 3) :: real\<rceil> = 699051 \<and>
   ((699050, 0), (5, 0)) \<in> set (threads 699051 1
      \<lparr>block_size_x = 1024, block_size_y = 1, work_per_thread_x = 3\<rparr>) \<and>
   kernel2dw (+) \<lparr>block_size_x = 1024, block_size_y = 1, work_per_thread_x = 3\<rparr>
     (\<lambda>k. 0) (\<lambda>k. 0 :: int) 2147483647 1 ((699050, 0), (5, 0))
   = Some [(2147481605, 0), (2147482629, 0), (- 2147483643, 0)]"
proof -
  have "kernel2dw_writes (+) \<lparr>block_size_x = 1024, block_size_y = 1, work_per_thread_x = 3\<rparr>
     (\<lambda>k. 0) (\<lambda>k. 0 :: int) 2147483647 1 ((699050, 0), (5, 0))
   = [(2147481605, 0), (2147482629, 0), (- 2147483643, 0)]"
    by code_simp
  then show ?thesis by (simp add: in_threads kernel2dw_returns)
qed

text \<open>
  In the same way \<open>j\<close> wraps for \<open>n = 1\<close>, \<open>m = 2^31 - 1\<close> and \<open>block_size_y = 1000\<close>.
\<close>

lemma kernel2dw_row_overflow:
  "\<lceil>2147483647 / 1000 :: real\<rceil> = 2147484 \<and>
   ((0, 2147483), (0, 999)) \<in> set (threads 1 2147484
      \<lparr>block_size_x = 1, block_size_y = 1000, work_per_thread_x = 1\<rparr>) \<and>
   kernel2dw (+) \<lparr>block_size_x = 1, block_size_y = 1000, work_per_thread_x = 1\<rparr>
     (\<lambda>k. 0) (\<lambda>k. 0 :: int) 1 2147483647 ((0, 2147483), (0, 999))
   = Some [(- 2147483297, 0)]"
proof -
  have "kernel2dw_writes (+) \<lparr>block_size_x = 1, block_size_y = 1000, work_per_thread_x = 1\<rparr>
     (\<lambda>k. 0) (\<lambda>k. 0 :: int) 1 2147483647 ((0, 2147483), (0, 999))
   = [(- 2147483297, 0)]"
    by code_simp
  then show ?thesis by (simp add: in_threads kernel2dw_returns)
qed

text \<open>
  The bound on \<open>work_per_thread_x\<close> is needed for the loop to end: the counter \<open>ti\<close> is
  always below \<open>2^31\<close>, so for a larger constant the test \<open>ti < work_per_thread_x\<close>
  never fails and no thread returns.
\<close>

lemma s32_less: "s32 v < 2 ^ 31"
  by (simp add: s32_def)

lemma kernel2dw_loop_Some_imp:
  assumes "kernel2dw_loop fadd p a b n m i j ti ws = Some r"
    and "2 ^ 31 \<le> work_per_thread_x p"
  shows "2 ^ 31 \<le> ti"
  using assms
proof (induction fadd p a b n m i j ti ws r rule: kernel2dw_loop.raw_induct)
  case (1 loop fadd p a b n m i j ti ws r)
  show ?case
  proof (cases "ti < work_per_thread_x p")
    case True
    let ?ws = "ws @
           (if s32 (i + s32 (ti * block_size_x p)) < n \<and> j < m
            then [store_sum fadd a b (s32 (s32 (j * n) + s32 (i + s32 (ti * block_size_x p))))]
            else [])"
    from True "1.hyps" have "loop fadd p a b n m i j (s32 (ti + 1)) ?ws = Some r"
      by simp
    moreover from True "1.prems"(1)
    have "kernel2dw_loop fadd p a b n m i j (s32 (ti + 1)) ?ws = Some r"
      by (subst (asm) kernel2dw_loop.simps) simp
    ultimately have "2 ^ 31 \<le> s32 (ti + 1)"
      using "1.prems"(2) by (rule "1.IH")
    with s32_less [of "ti + 1"] show ?thesis
      by simp
  next
    case False
    with "1.prems" show ?thesis by simp
  qed
qed (rule assms(1))

lemma kernel2dw_never_returns:
  assumes "2 ^ 31 \<le> work_per_thread_x p"
  shows "kernel2dw fadd p a b n m t = None"
proof (rule ccontr)
  assume "kernel2dw fadd p a b n m t \<noteq> None"
  then obtain r where "kernel2dw fadd p a b n m t = Some r"
    by blast
  then obtain i j where "kernel2dw_loop fadd p a b n m i j 0 [] = Some r"
    by (auto simp: kernel2dw_def Let_def split: prod.splits)
  from kernel2dw_loop_Some_imp [OF this assms] show False
    by simp
qed

text \<open>
  So the launch of the claim does not return for \<open>n = 5\<close>, \<open>m = 1\<close>, one thread per block
  and \<open>work_per_thread_x = 2^31\<close>, although no index that is at most \<open>n\<close> overflows.
\<close>

lemma kernel2dw_long_work_per_thread:
  "\<lceil>5 / (1 * 2147483648) :: real\<rceil> = 1 \<and> \<lceil>1 / 1 :: real\<rceil> = 1 \<and>
   launch (kernel2dw fadd \<lparr>block_size_x = 1, block_size_y = 1, work_per_thread_x = 2147483648\<rparr>
       a b 5 1)
     (threads 1 1 \<lparr>block_size_x = 1, block_size_y = 1, work_per_thread_x = 2147483648\<rparr>) = None"
proof -
  have "threads 1 1 \<lparr>block_size_x = 1, block_size_y = 1, work_per_thread_x = 2147483648\<rparr>
      = [((0, 0), (0, 0))]"
    by (simp add: threads_def)
  then show ?thesis
    by (simp add: kernel2dw_never_returns)
qed

section \<open>Properties of the launch grid\<close>

lemma ceil_div_eq_ceiling:
  fixes P D :: int
  assumes "0 < D"
  shows "(P + D - 1) div D = \<lceil>real_of_int P / real_of_int D\<rceil>"
proof -
  define q where "q = (P + D - 1) div D"
  have "q * D + (P + D - 1) mod D = P + D - 1"
    by (simp add: q_def)
  moreover have "0 \<le> (P + D - 1) mod D" "(P + D - 1) mod D < D"
    using assms by simp_all
  ultimately have lo: "(q - 1) * D < P" and hi: "P \<le> q * D"
    by (simp_all add: algebra_simps)
  have D: "0 < real_of_int D" using assms by simp
  have "real_of_int ((q - 1) * D) < real_of_int P" using lo by (simp only: of_int_less_iff)
  then have "(real_of_int q - 1) * real_of_int D < real_of_int P" by simp
  then have 1: "real_of_int q - 1 < real_of_int P / real_of_int D"
    using D by (simp only: pos_less_divide_eq)
  have "real_of_int P \<le> real_of_int (q * D)" using hi by (simp only: of_int_le_iff)
  then have "real_of_int P \<le> real_of_int q * real_of_int D" by simp
  then have 2: "real_of_int P / real_of_int D \<le> real_of_int q"
    using D by (simp only: pos_divide_le_eq)
  have "\<lceil>real_of_int P / real_of_int D\<rceil> = q"
    using 1 2 by (rule ceiling_unique)
  then show ?thesis by (simp add: q_def)
qed

text \<open>
  Claim C4. For every problem size \<open>P \<ge> 1\<close> in a dimension and every grid divisor list
  whose parameter values have the product \<open>D \<ge> 1\<close>, the number of blocks computed for
  that dimension is \<open>\<lceil>P / D\<rceil>\<close>, a positive integer; in particular \<open>P = 1000000\<close>
  with \<open>D = 256\<close> gives 3907 blocks.
\<close>

theorem grid_blocks_ceiling:
  assumes "1 \<le> P" and "divisor_product cfg names = Some D" and "1 \<le> D"
  shows "grid_blocks P cfg names = Some \<lceil>real_of_int P / real_of_int D\<rceil>
       \<and> 1 \<le> \<lceil>real_of_int P / real_of_int D\<rceil>
       \<and> grid_blocks 1000000 [(''block_size_x'', 256)] [''block_size_x''] = Some 3907"
proof -
  have "0 < real_of_int P / real_of_int D" using assms by simp
  then have "0 < \<lceil>real_of_int P / real_of_int D\<rceil>" by (simp only: zero_less_ceiling)
  moreover have "grid_blocks P cfg names = Some \<lceil>real_of_int P / real_of_int D\<rceil>"
    using assms by (simp add: grid_blocks_def ceil_div_eq_ceiling)
  moreover have "grid_blocks 1000000 [(''block_size_x'', 256)] [''block_size_x''] = Some 3907"
    by (simp add: grid_blocks_def)
  ultimately show ?thesis by simp
qed

text \<open>
  The theorem at the problem size of the notebook's 2D kernels, \<open>n = m = 10000\<close>: the
  divisor list \<open>grid_div_x = ["block_size_x", "work_per_thread_x"]\<close> with the values 64
  and 2 (an inexact division, 78.125), and the divisor list of the y-dimension with the
  value 4 (an exact one).
\<close>

theorem grid_blocks_ceiling_witness:
  "grid_blocks 10000 [(''block_size_x'', 64), (''block_size_y'', 4), (''work_per_thread_x'', 2)]
     [''block_size_x'', ''work_per_thread_x''] = Some 79
   \<and> grid_blocks 10000 [(''block_size_x'', 64), (''block_size_y'', 4), (''work_per_thread_x'', 2)]
     [''block_size_y''] = Some 2500"
  using grid_blocks_ceiling [of 10000 "[(''block_size_x'', 64), (''block_size_y'', 4), (''work_per_thread_x'', 2)]"
      "[''block_size_x'', ''work_per_thread_x'']" 128]
    grid_blocks_ceiling [of 10000 "[(''block_size_x'', 64), (''block_size_y'', 4), (''work_per_thread_x'', 2)]"
      "[''block_size_y'']" 4]
  by simp

end
